theory Spec2Isabelle
  imports Complex_Main
begin

section \<open>Values and rows\<close>

text \<open>
  The table is generic over its rows (\<^verbatim>\<open>T extends Record<string, any>\<close>). A cell holds a
  primitive value of the host language; a row is a finite list of named fields, and reading
  a field that the row does not have gives \<^verbatim>\<open>undefined\<close>. Numbers are the integers (those
  that the double format holds exactly and prints in full) and strings are sequences of
  ASCII characters: fractions, \<^verbatim>\<open>NaN\<close>, objects and non-ASCII text as cell values are
  outside this model.
\<close>

datatype jsval = JUndefined | JNull | JBool bool | JNum int | JStr string

type_synonym row = "(string \<times> jsval) list"

definition getField :: "row \<Rightarrow> string \<Rightarrow> jsval" where
  "getField record k = (case map_of record k of None \<Rightarrow> JUndefined | Some v \<Rightarrow> v)"

definition isNullish :: "jsval \<Rightarrow> bool" where
  "isNullish v = (v = JUndefined \<or> v = JNull)"

text \<open>The operator \<^verbatim>\<open>v ?? d\<close>.\<close>

definition nullish :: "jsval \<Rightarrow> jsval \<Rightarrow> jsval" where
  "nullish v d = (if isNullish v then d else v)"

subsection \<open>Conversion to text: \<^verbatim>\<open>String(value)\<close>\<close>

function digitsOf :: "int \<Rightarrow> string" where
  "digitsOf n =
     (if n < 10 then [char_of (48 + nat n)]
      else digitsOf (n div 10) @ [char_of (48 + nat (n mod 10))])"
  by pat_completeness auto
termination
  by (relation "measure nat") auto

declare digitsOf.simps [simp del]

definition numberToString :: "int \<Rightarrow> string" where
  "numberToString n = (if n < 0 then CHR ''-'' # digitsOf (- n) else digitsOf n)"

fun jsString :: "jsval \<Rightarrow> string" where
  "jsString JUndefined = ''undefined''"
| "jsString JNull = ''null''"
| "jsString (JBool b) = (if b then ''true'' else ''false'')"
| "jsString (JNum n) = numberToString n"
| "jsString (JStr s) = s"

subsection \<open>\<^verbatim>\<open>toLowerCase\<close> and \<^verbatim>\<open>includes\<close>\<close>

definition lowerChar :: "char \<Rightarrow> char" where
  "lowerChar c =
     (let n = (of_char c :: nat) in if 65 \<le> n \<and> n \<le> 90 then char_of (n + 32) else c)"

definition toLowerCase :: "string \<Rightarrow> string" where
  "toLowerCase s = map lowerChar s"

text \<open>\<^verbatim>\<open>s.includes(q)\<close>: does \<open>q\<close> occur in \<open>s\<close> as a contiguous run of characters.\<close>

fun includes_str :: "string \<Rightarrow> string \<Rightarrow> bool" where
  "includes_str [] q = (q = [])"
| "includes_str (c # s) q = (take (length q) (c # s) = q \<or> includes_str s q)"

subsection \<open>Conversion to a number and the operator \<^verbatim>\<open><\<close>\<close>

text \<open>
  The comparator of the sort applies \<^verbatim>\<open><\<close> and \<^verbatim>\<open>>\<close> to cell values of any type. On
  primitives the language compares two strings by their code units and converts everything
  else to a number first; a comparison with \<^verbatim>\<open>NaN\<close> is false. A finite number is held as the
  rational that the double is.
\<close>

datatype jsnum = NaN | NegInf | Fin rat | PosInf

fun num_lt :: "jsnum \<Rightarrow> jsnum \<Rightarrow> bool" where
  "num_lt NaN _ = False"
| "num_lt _ NaN = False"
| "num_lt (Fin a) (Fin b) = (a < b)"
| "num_lt _ NegInf = False"
| "num_lt NegInf _ = True"
| "num_lt PosInf _ = False"
| "num_lt (Fin a) PosInf = True"

text \<open>
  The Number value of a rational: the nearest double, a tie going to the even significand,
  and infinity when that would be $2^{1024}$ or more. A double has 53 significant bits and a binary exponent of
  at least -1022, so the doubles around a positive \<open>a\<close> in the binade $2^e \le a < 2^{e+1}$ are
  the multiples of $2^{e'-52}$ with $e'$ the larger of \<open>e\<close> and -1022.
\<close>

function bitLength :: "int \<Rightarrow> int" where
  "bitLength n = (if n \<le> 0 then 0 else 1 + bitLength (n div 2))"
  by pat_completeness auto
termination
  by (relation "measure nat") auto

declare bitLength.simps [simp del]

definition binade :: "rat \<Rightarrow> int" where
  "binade a =
     (if 1 \<le> a then bitLength \<lfloor>a\<rfloor> - 1
      else - bitLength (\<lceil>1 / a\<rceil> - 1))"

definition pow2 :: "int \<Rightarrow> rat" where
  "pow2 e = (if 0 \<le> e then 2 ^ nat e else 1 / 2 ^ nat (- e))"

definition roundHalfEven :: "rat \<Rightarrow> int" where
  "roundHalfEven q =
     (let f = \<lfloor>q\<rfloor>; d = q - of_int f
      in if d < 1 / 2 then f else if 1 / 2 < d then f + 1 else if even f then f else f + 1)"

definition toDouble :: "rat \<Rightarrow> jsnum" where
  "toDouble x =
     (if x = 0 then Fin 0
      else
        (let a = \<bar>x\<bar>;
             ulp = pow2 (max (binade a) (- 1022) - 52);
             r = of_int (roundHalfEven (a / ulp)) * ulp
         in if 0 < r \<and> 1024 \<le> binade r then (if x < 0 then NegInf else PosInf)
            else Fin (if x < 0 then - r else r)))"

definition isWhiteSpace :: "char \<Rightarrow> bool" where
  "isWhiteSpace c = ((of_char c :: nat) \<in> {9, 10, 11, 12, 13, 32})"

definition trim :: "string \<Rightarrow> string" where
  "trim s = rev (dropWhile isWhiteSpace (rev (dropWhile isWhiteSpace s)))"

text \<open>The value of a character as a digit of the given radix, if it is one.\<close>

definition digitValue :: "nat \<Rightarrow> char \<Rightarrow> nat option" where
  "digitValue radix c =
     (let n = (of_char c :: nat);
          v = (if 48 \<le> n \<and> n \<le> 57 then n - 48
               else if 97 \<le> n \<and> n \<le> 122 then n - 87
               else if 65 \<le> n \<and> n \<le> 90 then n - 55
               else radix)
      in if v < radix then Some v else None)"

definition isDigit :: "char \<Rightarrow> bool" where
  "isDigit c = (digitValue 10 c \<noteq> None)"

definition digitsValue :: "nat \<Rightarrow> string \<Rightarrow> int" where
  "digitsValue radix ds =
     foldl (\<lambda>acc c. int radix * acc + (case digitValue radix c of None \<Rightarrow> 0 | Some v \<Rightarrow> int v))
       0 ds"

definition parseRadix :: "nat \<Rightarrow> string \<Rightarrow> jsnum" where
  "parseRadix radix ds =
     (if ds \<noteq> [] \<and> list_all (\<lambda>c. digitValue radix c \<noteq> None) ds
      then toDouble (of_int (digitsValue radix ds)) else NaN)"

text \<open>The exponent part of a decimal literal: empty, or \<^verbatim>\<open>e\<close> and a signed integer.\<close>

definition parseExponent :: "string \<Rightarrow> int option" where
  "parseExponent r =
     (case r of
        [] \<Rightarrow> Some 0
      | c # r' \<Rightarrow>
          if c = CHR ''e'' \<or> c = CHR ''E'' then
            (let (neg, d) = (case r' of
                               [] \<Rightarrow> (False, [])
                             | s # d' \<Rightarrow> if s = CHR ''-'' then (True, d')
                                         else if s = CHR ''+'' then (False, d')
                                         else (False, r'))
             in if d \<noteq> [] \<and> list_all isDigit d
                then Some (if neg then - digitsValue 10 d else digitsValue 10 d)
                else None)
          else None)"

definition scale10 :: "rat \<Rightarrow> int \<Rightarrow> rat" where
  "scale10 m e = (if 0 \<le> e then m * 10 ^ nat e else m / 10 ^ nat (- e))"

definition parseDecimal :: "string \<Rightarrow> jsnum" where
  "parseDecimal t =
     (let (neg, u) = (case t of
                        [] \<Rightarrow> (False, [])
                      | s # u' \<Rightarrow> if s = CHR ''-'' then (True, u')
                                  else if s = CHR ''+'' then (False, u')
                                  else (False, t))
      in if u = ''Infinity'' then (if neg then NegInf else PosInf)
         else
           (let ip = takeWhile isDigit u;
                r1 = dropWhile isDigit u;
                (fp, r2) = (case r1 of
                              [] \<Rightarrow> ([], [])
                            | d # r \<Rightarrow> if d = CHR ''.''
                                        then (takeWhile isDigit r, dropWhile isDigit r)
                                        else ([], r1))
            in if ip = [] \<and> fp = [] then NaN
               else (case parseExponent r2 of
                       None \<Rightarrow> NaN
                     | Some e \<Rightarrow>
                         (let m = scale10 (of_int (digitsValue 10 (ip @ fp))) (e - int (length fp))
                          in toDouble (if neg then - m else m)))))"

text \<open>
  The conversion of a string to a number: white space around the literal is dropped, the
  empty string is 0, the prefixes \<^verbatim>\<open>0x\<close>, \<^verbatim>\<open>0o\<close> and \<^verbatim>\<open>0b\<close> introduce an unsigned integer of
  that radix, everything else is a signed decimal literal or \<^verbatim>\<open>NaN\<close>. The value of the
  literal is rounded to a double.
\<close>

definition stringToNumber :: "string \<Rightarrow> jsnum" where
  "stringToNumber s =
     (let t = trim s in
      case t of
        [] \<Rightarrow> Fin 0
      | [_] \<Rightarrow> parseDecimal t
      | c0 # c1 # ds \<Rightarrow>
          if c0 = CHR ''0'' \<and> (c1 = CHR ''x'' \<or> c1 = CHR ''X'') then parseRadix 16 ds
          else if c0 = CHR ''0'' \<and> (c1 = CHR ''o'' \<or> c1 = CHR ''O'') then parseRadix 8 ds
          else if c0 = CHR ''0'' \<and> (c1 = CHR ''b'' \<or> c1 = CHR ''B'') then parseRadix 2 ds
          else parseDecimal t)"

fun toNumber :: "jsval \<Rightarrow> jsnum" where
  "toNumber JUndefined = NaN"
| "toNumber JNull = Fin 0"
| "toNumber (JBool b) = Fin (if b then 1 else 0)"
| "toNumber (JNum n) = Fin (of_int n)"
| "toNumber (JStr s) = stringToNumber s"

fun codeUnitsLess :: "string \<Rightarrow> string \<Rightarrow> bool" where
  "codeUnitsLess [] [] = False"
| "codeUnitsLess [] (_ # _) = True"
| "codeUnitsLess (_ # _) [] = False"
| "codeUnitsLess (a # as) (b # bs) =
     ((of_char a :: nat) < of_char b \<or> (a = b \<and> codeUnitsLess as bs))"

text \<open>\<^verbatim>\<open>a < b\<close>; \<^verbatim>\<open>a > b\<close> is \<open>js_lt b a\<close>.\<close>

fun js_lt :: "jsval \<Rightarrow> jsval \<Rightarrow> bool" where
  "js_lt (JStr x) (JStr y) = codeUnitsLess x y"
| "js_lt a b = num_lt (toNumber a) (toNumber b)"


subsection \<open>\<^verbatim>\<open>Array.prototype.slice\<close> and \<^verbatim>\<open>Array.prototype.sort\<close>\<close>

text \<open>\<^verbatim>\<open>xs.slice(start, end)\<close> for integer arguments: a negative index counts from the end,
  and both ends are clipped to the array.\<close>

definition slice :: "'a list \<Rightarrow> int \<Rightarrow> int \<Rightarrow> 'a list" where
  "slice xs start end' =
     (let len = int (length xs);
          k = (if start < 0 then max (len + start) 0 else min start len);
          final = (if end' < 0 then max (len + end') 0 else min end' len)
      in take (nat (final - k)) (drop (nat k) xs))"

text \<open>
  \<^verbatim>\<open>xs.sort(cmp)\<close> is the engine's sort, which the language requires to be stable. Its result
  is fixed by the language when \<open>cmp\<close> is a consistent comparator; otherwise the order is
  left to the engine. The model follows V8 (Node, where the test suite of the repository
  runs). V8 finds the run that the array begins with: the longest beginning in which every
  element compares below its predecessor, which it then reverses, or the longest in which
  none does. It then inserts each of the remaining elements into the sorted part before
  it, at the place that a binary search gives. The comparator is called with the later
  element first. An array of 64 or more elements V8 cuts into several pieces, sorts each
  this way and merges them; the model sorts it as one piece, which gives the same list
  when the comparator is consistent.
\<close>

fun runTail :: "('a \<Rightarrow> 'a \<Rightarrow> int) \<Rightarrow> bool \<Rightarrow> 'a \<Rightarrow> 'a list \<Rightarrow> nat" where
  "runTail cmp isDescending previousElement [] = 0"
| "runTail cmp isDescending previousElement (currentElement # rest) =
     (let order = cmp currentElement previousElement
      in if (if isDescending then 0 \<le> order else order < 0) then 0
         else Suc (runTail cmp isDescending currentElement rest))"

text \<open>The array with its first run made ascending, and the length of that run.\<close>

definition countAndMakeRun :: "('a \<Rightarrow> 'a \<Rightarrow> int) \<Rightarrow> 'a list \<Rightarrow> 'a list \<times> nat" where
  "countAndMakeRun cmp xs =
     (case xs of
        elementHigh # elementLow # rest \<Rightarrow>
          (let isDescending = (cmp elementLow elementHigh < 0);
               runLength = 2 + runTail cmp isDescending elementLow rest
           in (if isDescending then rev (take runLength xs) @ drop runLength xs else xs,
               runLength))
      | _ \<Rightarrow> (xs, length xs))"

function binarySearch :: "('a \<Rightarrow> 'a \<Rightarrow> int) \<Rightarrow> 'a \<Rightarrow> 'a list \<Rightarrow> nat \<Rightarrow> nat \<Rightarrow> nat" where
  "binarySearch cmp pivot placed left right =
     (if left < right then
        (let mid = left + (right - left) div 2
         in if cmp pivot (placed ! mid) < 0 then binarySearch cmp pivot placed left mid
            else binarySearch cmp pivot placed (mid + 1) right)
      else left)"
  by pat_completeness auto
termination
  by (relation "measure (\<lambda>(cmp, pivot, placed, left, right). right - left)") auto

declare binarySearch.simps [simp del]

definition insertPivot :: "('a \<Rightarrow> 'a \<Rightarrow> int) \<Rightarrow> 'a list \<Rightarrow> 'a \<Rightarrow> 'a list" where
  "insertPivot cmp placed pivot =
     (let left = binarySearch cmp pivot placed 0 (length placed)
      in take left placed @ pivot # drop left placed)"

definition arraySort :: "('a \<Rightarrow> 'a \<Rightarrow> int) \<Rightarrow> 'a list \<Rightarrow> 'a list" where
  "arraySort cmp xs =
     (let (work, runLength) = countAndMakeRun cmp xs
      in foldl (insertPivot cmp) (take runLength work) (drop runLength work))"

section \<open>The component \<^verbatim>\<open>DataTable\<close>\<close>

subsection \<open>Props and state\<close>

text \<open>A column; \<open>render\<close> stands for the custom cell renderer, its result for the rendered
  node.\<close>

record column =
  key :: string
  title :: string
  dataIndex :: string
  sortable :: "bool option"
  width :: "string option"
  render :: "(jsval \<Rightarrow> row \<Rightarrow> nat \<Rightarrow> string) option"

datatype SortOrder = Asc | Desc

text \<open>\<^verbatim>\<open>SortState\<close>; its fields \<^verbatim>\<open>key\<close> and \<^verbatim>\<open>order\<close> are \<open>sortKey\<close> and \<open>sortOrder\<close> here, \<open>None\<close>
  is \<^verbatim>\<open>null\<close>.\<close>

record SortState =
  sortKey :: "string option"
  sortOrder :: "SortOrder option"

text \<open>\<^verbatim>\<open>rowKey\<close> is the name of a field or a function of the row.\<close>

datatype RowKey = KeyField string | KeyFn "row \<Rightarrow> jsval"

text \<open>The props that the data pipeline reads. \<open>onRowSelect\<close> says whether the host has
  registered the callback; what a handler passes to it is part of the handler's result.\<close>

record props =
  data :: "row list"
  columns :: "column list"
  onRowSelect :: bool
  pageSize :: "int option"
  rowKey :: RowKey

text \<open>The four \<^verbatim>\<open>useState\<close> cells.\<close>

record state =
  selectedRows :: "jsval set"
  sortState :: SortState
  searchQuery :: string
  currentPage :: int

definition initialState :: state where
  "initialState =
     \<lparr>selectedRows = {}, sortState = \<lparr>sortKey = None, sortOrder = None\<rparr>,
      searchQuery = [], currentPage = 1\<rparr>"

subsection \<open>The pipeline: filter, sort, paginate\<close>

definition getRowKey :: "props \<Rightarrow> row \<Rightarrow> nat \<Rightarrow> jsval" where
  "getRowKey P record index =
     (case rowKey P of
        KeyFn f \<Rightarrow> f record
      | KeyField k \<Rightarrow> nullish (getField record k) (JNum (int index)))"

definition filteredData :: "props \<Rightarrow> state \<Rightarrow> row list" where
  "filteredData P S =
     (if searchQuery S = [] then data P
      else filter (\<lambda>record.
             list_ex (\<lambda>column.
               let value = getField record (dataIndex column)
               in includes_str (toLowerCase (jsString value)) (toLowerCase (searchQuery S)))
             (columns P))
           (data P))"

text \<open>The comparator passed to \<^verbatim>\<open>sort\<close>. \<open>localeCompare\<close> is the collation of the host's
  locale, a parameter of the model.\<close>

definition compareRows ::
  "(string \<Rightarrow> string \<Rightarrow> int) \<Rightarrow> SortOrder option \<Rightarrow> column \<Rightarrow> row \<Rightarrow> row \<Rightarrow> int" where
  "compareRows localeCompare ord column a b =
     (let aVal = getField a (dataIndex column);
          bVal = getField b (dataIndex column)
      in if isNullish aVal then (if ord = Some Asc then - 1 else 1)
         else if isNullish bVal then (if ord = Some Asc then 1 else - 1)
         else
           (case (aVal, bVal) of
              (JStr x, JStr y) \<Rightarrow>
                (let comparison = localeCompare x y
                 in if ord = Some Asc then comparison else - comparison)
            | _ \<Rightarrow>
                if js_lt aVal bVal then (if ord = Some Asc then - 1 else 1)
                else if js_lt bVal aVal then (if ord = Some Asc then 1 else - 1)
                else 0))"

definition sortedData :: "(string \<Rightarrow> string \<Rightarrow> int) \<Rightarrow> props \<Rightarrow> state \<Rightarrow> row list" where
  "sortedData localeCompare P S =
     (if sortKey (sortState S) = None \<or> sortKey (sortState S) = Some [] \<or>
         sortOrder (sortState S) = None
      then filteredData P S
      else
        (case find (\<lambda>col. Some (key col) = sortKey (sortState S)) (columns P) of
           None \<Rightarrow> filteredData P S
         | Some column \<Rightarrow>
             arraySort (compareRows localeCompare (sortOrder (sortState S)) column)
               (filteredData P S)))"

definition paginatedData :: "(string \<Rightarrow> string \<Rightarrow> int) \<Rightarrow> props \<Rightarrow> state \<Rightarrow> row list" where
  "paginatedData localeCompare P S =
     (case pageSize P of
        None \<Rightarrow> sortedData localeCompare P S
      | Some ps \<Rightarrow>
          if ps = 0 then sortedData localeCompare P S
          else
            (let startIndex = (currentPage S - 1) * ps
             in slice (sortedData localeCompare P S) startIndex (startIndex + ps)))"

definition totalPages :: "(string \<Rightarrow> string \<Rightarrow> int) \<Rightarrow> props \<Rightarrow> state \<Rightarrow> int" where
  "totalPages localeCompare P S =
     (case pageSize P of
        None \<Rightarrow> 1
      | Some ps \<Rightarrow>
          if ps = 0 then 1
          else \<lceil>real (length (sortedData localeCompare P S)) / real_of_int ps\<rceil>)"

subsection \<open>Handlers\<close>

definition handleSort :: "column \<Rightarrow> state \<Rightarrow> state" where
  "handleSort column S =
     (if sortable column \<noteq> Some True then S
      else S\<lparr>sortState :=
             (let prev = sortState S
              in if sortKey prev \<noteq> Some (key column)
                 then \<lparr>sortKey = Some (key column), sortOrder = Some Asc\<rparr>
                 else if sortOrder prev = Some Asc
                 then \<lparr>sortKey = Some (key column), sortOrder = Some Desc\<rparr>
                 else \<lparr>sortKey = None, sortOrder = None\<rparr>)\<rparr>)"

text \<open>A handler that may call \<^verbatim>\<open>onRowSelect\<close> returns the new state and the argument of the
  call, \<open>None\<close> when no callback is registered.\<close>

definition notify :: "props \<Rightarrow> row list \<Rightarrow> row list option" where
  "notify P selectedData = (if onRowSelect P then Some selectedData else None)"

definition handleRowSelect :: "props \<Rightarrow> state \<Rightarrow> row \<Rightarrow> bool \<Rightarrow> nat \<Rightarrow> state \<times> row list option" where
  "handleRowSelect P S record checked index =
     (let k = getRowKey P record index;
          newSelected = (if checked then insert k (selectedRows S) else selectedRows S - {k})
      in (S\<lparr>selectedRows := newSelected\<rparr>,
          notify P (map snd (filter (\<lambda>(idx, item). getRowKey P item idx \<in> newSelected)
                              (enumerate 0 (data P))))))"

definition handleSelectAll ::
  "(string \<Rightarrow> string \<Rightarrow> int) \<Rightarrow> props \<Rightarrow> state \<Rightarrow> bool \<Rightarrow> state \<times> row list option" where
  "handleSelectAll localeCompare P S checked =
     (if checked then
        (let allKeys = set (map (\<lambda>(index, record). getRowKey P record index)
                              (enumerate 0 (paginatedData localeCompare P S)))
         in (S\<lparr>selectedRows := allKeys\<rparr>, notify P (paginatedData localeCompare P S)))
      else (S\<lparr>selectedRows := {}\<rparr>, notify P []))"

definition clearSelection :: "props \<Rightarrow> state \<Rightarrow> state \<times> row list option" where
  "clearSelection P S = (S\<lparr>selectedRows := {}\<rparr>, notify P [])"

definition setSearchQuery :: "string \<Rightarrow> state \<Rightarrow> state" where
  "setSearchQuery q S = S\<lparr>searchQuery := q\<rparr>"

text \<open>The three page buttons: Previous, a page number, Next.\<close>

definition previousPage :: "state \<Rightarrow> state" where
  "previousPage S = S\<lparr>currentPage := max (currentPage S - 1) 1\<rparr>"

definition setCurrentPage :: "int \<Rightarrow> state \<Rightarrow> state" where
  "setCurrentPage page S = S\<lparr>currentPage := page\<rparr>"

definition nextPage :: "(string \<Rightarrow> string \<Rightarrow> int) \<Rightarrow> props \<Rightarrow> state \<Rightarrow> state" where
  "nextPage localeCompare P S =
     S\<lparr>currentPage := min (currentPage S + 1) (totalPages localeCompare P S)\<rparr>"

subsection \<open>What a row shows\<close>

definition isSelected :: "props \<Rightarrow> state \<Rightarrow> row \<Rightarrow> nat \<Rightarrow> bool" where
  "isSelected P S record index = (getRowKey P record index \<in> selectedRows S)"

definition isAllSelected :: "(string \<Rightarrow> string \<Rightarrow> int) \<Rightarrow> props \<Rightarrow> state \<Rightarrow> bool" where
  "isAllSelected localeCompare P S =
     (paginatedData localeCompare P S \<noteq> [] \<and>
      list_all (\<lambda>(index, record). getRowKey P record index \<in> selectedRows S)
        (enumerate 0 (paginatedData localeCompare P S)))"

definition isIndeterminate :: "(string \<Rightarrow> string \<Rightarrow> int) \<Rightarrow> props \<Rightarrow> state \<Rightarrow> bool" where
  "isIndeterminate localeCompare P S =
     (selectedRows S \<noteq> {} \<and> \<not> isAllSelected localeCompare P S)"

text \<open>The text of a cell: the custom renderer of the column, or \<^verbatim>\<open>String(value ?? '')\<close>.\<close>

definition cellText :: "column \<Rightarrow> row \<Rightarrow> nat \<Rightarrow> string" where
  "cellText column record index =
     (case render column of
        Some f \<Rightarrow> f (getField record (dataIndex column)) record index
      | None \<Rightarrow> jsString (nullish (getField record (dataIndex column)) (JStr [])))"


section \<open>Sample tables\<close>

text \<open>A collation for the examples: the order of the code units.\<close>

definition sampleCollation :: "string \<Rightarrow> string \<Rightarrow> int" where
  "sampleCollation x y = (if codeUnitsLess x y then - 1 else if codeUnitsLess y x then 1 else 0)"

text \<open>A sortable column that shows the field of its name, without a renderer.\<close>

definition plainColumn :: "string \<Rightarrow> column" where
  "plainColumn k =
     \<lparr>key = k, title = k, dataIndex = k, sortable = Some True, width = None, render = None\<rparr>"

definition bob :: row where "bob = [(''id'', JNum 1), (''name'', JStr ''Bob'')]"
definition amy :: row where "amy = [(''id'', JNum 2), (''name'', JStr ''Amy'')]"
definition cal :: row where "cal = [(''id'', JNum 3), (''name'', JStr ''Cal'')]"

definition peopleProps :: props where
  "peopleProps =
     \<lparr>data = [bob, amy, cal], columns = [plainColumn ''name''], onRowSelect = True,
      pageSize = None, rowKey = KeyField ''id''\<rparr>"

text \<open>The same rows under an empty column list.\<close>

definition noColumnsProps :: props where
  "noColumnsProps = peopleProps\<lparr>columns := []\<rparr>"

text \<open>Rows with the ids 1 to \<open>n\<close>, three to a page.\<close>

definition numberedProps :: "int \<Rightarrow> props" where
  "numberedProps n =
     \<lparr>data = map (\<lambda>i. [(''id'', JNum i)]) [1..n], columns = [plainColumn ''id''],
      onRowSelect = True, pageSize = Some 3, rowKey = KeyField ''id''\<rparr>"

text \<open>Ten rows: all of page 1 selected; then page 2 opened; then all of page 2 selected.\<close>

definition tenPage1Selected :: state where
  "tenPage1Selected = fst (handleSelectAll sampleCollation (numberedProps 10) initialState True)"

definition tenPage2Opened :: state where
  "tenPage2Opened = setCurrentPage 2 tenPage1Selected"

definition tenPage2Selected :: state where
  "tenPage2Selected = fst (handleSelectAll sampleCollation (numberedProps 10) tenPage2Opened True)"

text \<open>Ten rows sorted by id, largest first: two clicks on the header.\<close>

definition tenDescending :: state where
  "tenDescending = handleSort (plainColumn ''id'') (handleSort (plainColumn ''id'') initialState)"





text \<open>Two rows without a value in \<open>v\<close>: one holds \<^verbatim>\<open>null\<close>, the other lacks the field.\<close>

definition nullFirst :: row where "nullFirst = [(''id'', JNum 1), (''v'', JNull)]"
definition absentSecond :: row where "absentSecond = [(''id'', JNum 2)]"

definition blankProps :: props where
  "blankProps =
     \<lparr>data = [nullFirst, absentSecond], columns = [plainColumn ''v''], onRowSelect = True,
      pageSize = None, rowKey = KeyField ''id''\<rparr>"

definition sortedBy :: "string \<Rightarrow> SortOrder \<Rightarrow> state" where
  "sortedBy k ord = initialState\<lparr>sortState := \<lparr>sortKey = Some k, sortOrder = Some ord\<rparr>\<rparr>"

section \<open>Facts about the building blocks\<close>

lemma includes_str_iff: "includes_str s q \<longleftrightarrow> (\<exists>pre post. s = pre @ q @ post)"
proof (induction s)
  case Nil
  then show ?case by auto
next
  case (Cons c s)
  show ?case
  proof
    assume "includes_str (c # s) q"
    then consider "take (length q) (c # s) = q" | "includes_str s q" by auto
    then show "\<exists>pre post. c # s = pre @ q @ post"
    proof cases
      case 1
      then have "c # s = [] @ q @ drop (length q) (c # s)"
        by (metis append_Nil append_take_drop_id)
      then show ?thesis by blast
    next
      case 2
      with Cons.IH obtain pre post where "s = pre @ q @ post" by blast
      then have "c # s = (c # pre) @ q @ post" by simp
      then show ?thesis by blast
    qed
  next
    assume "\<exists>pre post. c # s = pre @ q @ post"
    then obtain pre post where eq: "c # s = pre @ q @ post" by blast
    show "includes_str (c # s) q"
    proof (cases pre)
      case Nil
      with eq have "take (length q) (c # s) = q" by simp
      then show ?thesis by simp
    next
      case (Cons p pre')
      with eq have "s = pre' @ q @ post" by simp
      with Cons.IH have "includes_str s q" by blast
      then show ?thesis by simp
    qed
  qed
qed

lemma slice_window:
  assumes "0 \<le> a" "0 \<le> n"
  shows "slice xs a (a + n) = take (nat n) (drop (nat a) xs)"
proof (cases "a \<le> int (length xs)")
  case True
  show ?thesis
  proof (cases "a + n \<le> int (length xs)")
    case True
    with assms \<open>a \<le> int (length xs)\<close> show ?thesis
      by (simp add: slice_def Let_def min_def)
  next
    case False
    with assms True have "nat (int (length xs) - a) = length xs - nat a" by linarith
    moreover from False assms True have "length xs - nat a \<le> nat n" by linarith
    ultimately show ?thesis using assms True False
      by (simp add: slice_def Let_def min_def)
  qed
next
  case False
  with assms have "length xs \<le> nat a" by linarith
  with assms False show ?thesis
    by (simp add: slice_def Let_def min_def)
qed

lemma concat_windows:
  "concat (map (\<lambda>i. take m (drop (i * m) xs)) [0..<k]) = take (k * m) xs"
proof (induction k)
  case 0
  then show ?case by simp
next
  case (Suc k)
  have "take (k * m) xs @ take m (drop (k * m) xs) = take (k * m + m) xs"
    by (simp add: take_add)
  with Suc show ?case by (simp add: add.commute)
qed

lemma upto_as_upt: "[1..int k] = map (\<lambda>i. int i + 1) [0..<k]"
proof (induction k)
  case 0
  then show ?case by simp
next
  case (Suc k)
  have "[1..int (Suc k)] = [1..int (Suc k) - 1] @ [int (Suc k)]" by (rule upto_rec2) simp
  then show ?case using Suc by (simp add: add.commute)
qed

lemma filteredData_cong:
  "searchQuery S' = searchQuery S \<Longrightarrow> filteredData P S' = filteredData P S"
  by (simp add: filteredData_def)

lemma sortedData_cong:
  assumes "searchQuery S' = searchQuery S" "sortState S' = sortState S"
  shows "sortedData lc P S' = sortedData lc P S"
  unfolding sortedData_def filteredData_cong [OF assms(1)] assms(2) ..

lemma paginatedData_cong:
  assumes "searchQuery S' = searchQuery S" "sortState S' = sortState S"
    "currentPage S' = currentPage S"
  shows "paginatedData lc P S' = paginatedData lc P S"
  unfolding paginatedData_def sortedData_cong [OF assms(1,2)] assms(3) ..

lemma sortedData_setCurrentPage:
  "sortedData lc P (setCurrentPage page S) = sortedData lc P S"
  by (rule sortedData_cong) (simp_all add: setCurrentPage_def)

lemma totalPages_ceiling:
  assumes "pageSize P = Some ps" "0 < ps"
  shows "totalPages lc P S = \<lceil>real (length (sortedData lc P S)) / real_of_int ps\<rceil>"
  using assms by (simp add: totalPages_def)

lemma totalPages_upper:
  assumes "pageSize P = Some ps" "0 < ps"
  shows "int (length (sortedData lc P S)) \<le> totalPages lc P S * ps"
proof -
  let ?n = "length (sortedData lc P S)"
  have "real ?n \<le> of_int \<lceil>real ?n / real_of_int ps\<rceil> * real_of_int ps"
    by (rule ceiling_divide_upper) (use assms in simp)
  then have "real_of_int (int ?n) \<le> real_of_int (totalPages lc P S * ps)"
    by (simp add: totalPages_ceiling [OF assms])
  then show ?thesis by (simp only: of_int_le_iff)
qed


lemma totalPages_nonneg:
  assumes "pageSize P = Some ps" "0 < ps"
  shows "0 \<le> totalPages lc P S"
proof (rule ccontr)
  assume "\<not> 0 \<le> totalPages lc P S"
  then have "totalPages lc P S \<le> - 1" by simp
  then have "totalPages lc P S * ps \<le> - 1 * ps" using assms(2) by (intro mult_right_mono) simp_all
  with totalPages_upper [OF assms, of lc S] assms(2) show False by simp
qed

lemma filteredData_member:
  assumes "record \<in> set (data P)" "column \<in> set (columns P)"
    "toLowerCase (jsString (getField record (dataIndex column))) = pre @ toLowerCase (searchQuery S) @ post"
  shows "record \<in> set (filteredData P S)"
proof (cases "searchQuery S = []")
  case True
  with assms(1) show ?thesis by (simp add: filteredData_def)
next
  case False
  from assms(3) have "includes_str (toLowerCase (jsString (getField record (dataIndex column))))
      (toLowerCase (searchQuery S))"
    unfolding includes_str_iff by blast
  with assms(1,2) False show ?thesis
    by (auto simp: filteredData_def list_ex_iff)
qed

lemma filteredData_iff:
  assumes "r \<in> set (data P)" "searchQuery S \<noteq> []"
  shows "r \<in> set (filteredData P S) \<longleftrightarrow>
         (\<exists>c \<in> set (columns P). \<exists>u w.
            toLowerCase (jsString (getField r (dataIndex c))) =
              u @ toLowerCase (searchQuery S) @ w)"
  using assms by (simp add: filteredData_def list_ex_iff includes_str_iff)

lemma toLowerCase_undefined: "toLowerCase ''undefined'' = ''undefined''"
  by code_simp

lemma toLowerCase_null: "toLowerCase ''null'' = ''null''"
  by code_simp

lemma paginatedData_window:
  assumes "pageSize P = Some ps" "0 < ps" "1 \<le> currentPage S"
  shows "paginatedData lc P S =
         take (nat ps) (drop (nat ((currentPage S - 1) * ps)) (sortedData lc P S))"
proof -
  have "0 \<le> (currentPage S - 1) * ps" using assms by simp
  then have "slice (sortedData lc P S) ((currentPage S - 1) * ps) ((currentPage S - 1) * ps + ps) =
      take (nat ps) (drop (nat ((currentPage S - 1) * ps)) (sortedData lc P S))"
    by (rule slice_window) (use assms in simp)
  with assms show ?thesis by (simp add: paginatedData_def Let_def)
qed

lemma pages_concat:
  assumes "pageSize P = Some ps" "0 < ps"
  shows "concat (map (\<lambda>page. paginatedData lc P (setCurrentPage page S)) [1..int k]) =
         take (k * nat ps) (sortedData lc P S)"
proof -
  have "paginatedData lc P (setCurrentPage (int i + 1) S) =
        take (nat ps) (drop (i * nat ps) (sortedData lc P S))" for i
  proof -
    have "nat (int i * ps) = i * nat ps" using assms(2) by (simp add: nat_mult_distrib)
    then show ?thesis
      using paginatedData_window [OF assms, of "setCurrentPage (int i + 1) S" lc]
      by (simp add: sortedData_setCurrentPage) (simp add: setCurrentPage_def)
  qed
  then have "map (\<lambda>page. paginatedData lc P (setCurrentPage page S)) [1..int k] =
      map (\<lambda>i. take (nat ps) (drop (i * nat ps) (sortedData lc P S))) [0..<k]"
    by (simp add: upto_as_upt comp_def)
  then show ?thesis by (simp only: concat_windows)
qed

lemma arraySort_two:
  "arraySort cmp [x, y] = (if cmp y x < 0 then [y, x] else [x, y])"
  by (simp add: arraySort_def countAndMakeRun_def)

lemma insertPivot_two:
  "insertPivot cmp [a, b] p =
     (if cmp p b < 0 then (if cmp p a < 0 then [p, a, b] else [a, p, b]) else [a, b, p])"
  by (simp add: insertPivot_def binarySearch.simps [of cmp p "[a, b]"] Let_def)

lemma arraySort_three:
  "arraySort cmp [x, y, z] =
     (if cmp y x < 0
      then (if cmp z y < 0 then [z, y, x] else insertPivot cmp [y, x] z)
      else (if cmp z y < 0 then insertPivot cmp [x, y] z else [x, y, z]))"
  by (simp add: arraySort_def countAndMakeRun_def)

lemma sortedData_active:
  assumes "sortState S = \<lparr>sortKey = Some k, sortOrder = Some ord\<rparr>" "k \<noteq> []"
    "find (\<lambda>col. key col = k) (columns P) = Some c"
  shows "sortedData lc P S = arraySort (compareRows lc (Some ord) c) (filteredData P S)"
  using assms by (simp add: sortedData_def)

lemma sortState_sortedBy:
  "sortState (sortedBy k ord) = \<lparr>sortKey = Some k, sortOrder = Some ord\<rparr>"
  by (simp add: sortedBy_def)


lemma num_lt_NaN_right [simp]: "num_lt x NaN = False"
  by (cases x) simp_all

lemma enumerate_as_map: "enumerate 0 xs = map (\<lambda>i. (i, xs ! i)) [0..<length xs]"
  by (rule nth_equalityI) (simp_all add: nth_enumerate_eq)

lemma keys_of_enumerate:
  "set (map (\<lambda>(index, r). f r index) (enumerate 0 xs)) = {f (xs ! i) i | i. i < length xs}"
  by (auto simp: enumerate_as_map)

lemma filter_enumerate:
  "map snd (filter (\<lambda>(idx, item). Q item idx) (enumerate 0 xs)) =
   map (\<lambda>i. xs ! i) (filter (\<lambda>i. Q (xs ! i) i) [0..<length xs])"
  by (simp add: enumerate_as_map filter_map comp_def)

section \<open>The claims of the specification\<close>

text \<open>
  C1 (amended). Select-all with \<open>checked = true\<close> replaces the selection by the identity keys
  of the rows of the current page, each taken at its position on the page; keys selected
  on other pages are dropped. On ten rows at three to a page, selecting all of page 1 and
  then all of page 2 leaves three keys selected, those of the rows of page 2.
\<close>

theorem select_all_replaces:
  "selectedRows (fst (handleSelectAll lc P S True)) =
     {getRowKey P (paginatedData lc P S ! i) i | i. i < length (paginatedData lc P S)} \<and>
   paginatedData sampleCollation (numberedProps 10) tenPage2Opened =
     [[(''id'', JNum 4)], [(''id'', JNum 5)], [(''id'', JNum 6)]] \<and>
   selectedRows tenPage2Opened = {JNum 1, JNum 2, JNum 3} \<and>
   selectedRows tenPage2Selected = {JNum 4, JNum 5, JNum 6}"
proof -
  have "selectedRows (fst (handleSelectAll lc P S True)) =
     {getRowKey P (paginatedData lc P S ! i) i | i. i < length (paginatedData lc P S)}"
    unfolding handleSelectAll_def Let_def keys_of_enumerate by simp
  moreover have "paginatedData sampleCollation (numberedProps 10) tenPage2Opened =
     [[(''id'', JNum 4)], [(''id'', JNum 5)], [(''id'', JNum 6)]]" by code_simp
  moreover have "selectedRows tenPage2Opened = {JNum 1, JNum 2, JNum 3}" by code_simp
  moreover have "selectedRows tenPage2Selected = {JNum 4, JNum 5, JNum 6}" by code_simp
  ultimately show ?thesis by blast
qed

theorem select_all_replaces_witness:
  "selectedRows (fst (handleSelectAll sampleCollation peopleProps initialState True)) =
     {JNum 1, JNum 2, JNum 3}"
proof -
  have p: "paginatedData sampleCollation peopleProps initialState = [bob, amy, cal]" by code_simp
  have "{getRowKey peopleProps ([bob, amy, cal] ! i) i | i. i < length [bob, amy, cal]} =
      set (map (\<lambda>(index, r). getRowKey peopleProps r index) (enumerate 0 [bob, amy, cal]))"
    by (rule keys_of_enumerate [symmetric])
  also have "\<dots> = {JNum 1, JNum 2, JNum 3}" by code_simp
  finally have k: "{getRowKey peopleProps ([bob, amy, cal] ! i) i | i. i < length [bob, amy, cal]} =
      {JNum 1, JNum 2, JNum 3}" .
  from select_all_replaces [of sampleCollation peopleProps initialState]
  have "selectedRows (fst (handleSelectAll sampleCollation peopleProps initialState True)) =
     {getRowKey peopleProps (paginatedData sampleCollation peopleProps initialState ! i) i | i.
        i < length (paginatedData sampleCollation peopleProps initialState)}"
    by (rule conjunct1)
  then show ?thesis unfolding p k .
qed

text \<open>
  C1 as stated fails on the ten rows: with the keys of page 1 selected and page 2 open,
  select-all leaves the three keys of page 2 and drops those of page 1, so the selection
  has three elements and not six.
\<close>

theorem select_all_union_counterexample:
  "selectedRows tenPage2Opened = {JNum 1, JNum 2, JNum 3} \<and>
   currentPage tenPage2Opened = 2 \<and>
   tenPage2Selected = fst (handleSelectAll sampleCollation (numberedProps 10) tenPage2Opened True) \<and>
   selectedRows tenPage2Selected = {JNum 4, JNum 5, JNum 6} \<and>
   card (selectedRows tenPage2Selected) = 3 \<and>
   JNum 1 \<notin> selectedRows tenPage2Selected"
proof (intro conjI)
  show "selectedRows tenPage2Opened = {JNum 1, JNum 2, JNum 3}" by code_simp
  show "currentPage tenPage2Opened = 2" by (simp add: tenPage2Opened_def setCurrentPage_def)
  show "tenPage2Selected = fst (handleSelectAll sampleCollation (numberedProps 10) tenPage2Opened True)"
    by (rule tenPage2Selected_def)
  show sel: "selectedRows tenPage2Selected = {JNum 4, JNum 5, JNum 6}" by code_simp
  show "card (selectedRows tenPage2Selected) = 3" unfolding sel by simp
  show "JNum 1 \<notin> selectedRows tenPage2Selected" by code_simp
qed

text \<open>
  C2 (amended). When the query is not empty or there is a column, the result of the filter
  is the rows of the data, in their order, for which the text of some column's value,
  lowercased, contains the lowercased query. For the empty query the result is the data
  itself, also when the column list is empty and no row has a matching column.
\<close>

theorem filter_by_query:
  "(searchQuery S \<noteq> [] \<or> columns P \<noteq> [] \<longrightarrow>
      filteredData P S =
        filter (\<lambda>record. \<exists>column \<in> set (columns P). \<exists>pre post.
                  toLowerCase (jsString (getField record (dataIndex column))) =
                    pre @ toLowerCase (searchQuery S) @ post)
          (data P)) \<and>
   (searchQuery S = [] \<longrightarrow> filteredData P S = data P)"
proof (cases "searchQuery S = []")
  case False
  then show ?thesis by (simp add: filteredData_def list_ex_iff includes_str_iff)
next
  case True
  have "filter (\<lambda>record. \<exists>column \<in> set (columns P). \<exists>pre post.
                  toLowerCase (jsString (getField record (dataIndex column))) =
                    pre @ toLowerCase (searchQuery S) @ post) (data P) = data P"
    if "columns P \<noteq> []"
  proof -
    from that obtain c where "c \<in> set (columns P)" by (cases "columns P") auto
    then have "\<exists>column \<in> set (columns P). \<exists>pre post.
                  toLowerCase (jsString (getField r (dataIndex column))) =
                    pre @ toLowerCase (searchQuery S) @ post" for r
      using True by (auto simp: toLowerCase_def intro!: bexI [of _ c])
    then show ?thesis by simp
  qed
  with True show ?thesis by (simp add: filteredData_def)
qed

theorem filter_by_query_witness:
  "searchQuery (setSearchQuery ''AM'' initialState) \<noteq> [] \<and>
   filteredData peopleProps (setSearchQuery ''AM'' initialState) = [amy] \<and>
   searchQuery initialState = [] \<and>
   filteredData peopleProps initialState = [bob, amy, cal]"
proof -
  have q: "searchQuery (setSearchQuery ''AM'' initialState) \<noteq> []"
    by (simp add: setSearchQuery_def)
  have e: "searchQuery initialState = []"
    by (simp add: initialState_def)
  from filter_by_query [of "setSearchQuery ''AM'' initialState" peopleProps] q
  have "filteredData peopleProps (setSearchQuery ''AM'' initialState) =
        filter (\<lambda>record. \<exists>column \<in> set (columns peopleProps). \<exists>pre post.
                  toLowerCase (jsString (getField record (dataIndex column))) =
                    pre @ toLowerCase (searchQuery (setSearchQuery ''AM'' initialState)) @ post)
          (data peopleProps)" by blast
  also have "\<dots> = filter (\<lambda>record. list_ex (\<lambda>column.
                  includes_str (toLowerCase (jsString (getField record (dataIndex column))))
                    (toLowerCase (searchQuery (setSearchQuery ''AM'' initialState)))) (columns peopleProps))
          (data peopleProps)"
    by (simp add: list_ex_iff includes_str_iff)
  also have "\<dots> = [amy]" by code_simp
  finally have 1: "filteredData peopleProps (setSearchQuery ''AM'' initialState) = [amy]" .
  from filter_by_query [of initialState peopleProps] e
  have "filteredData peopleProps initialState = data peopleProps" by blast
  also have "\<dots> = [bob, amy, cal]" by (simp add: peopleProps_def)
  finally show ?thesis using q e 1 by blast
qed

text \<open>
  C2 as stated fails for the empty query over an empty column list: no row has a column at
  all, so no row has one whose text contains the query, and the filter returns every row.
\<close>

theorem filter_all_columns_counterexample:
  "columns noColumnsProps = [] \<and> searchQuery initialState = [] \<and>
   data noColumnsProps = [bob, amy, cal] \<and>
   filteredData noColumnsProps initialState = [bob, amy, cal]"
  by (simp add: filteredData_def noColumnsProps_def peopleProps_def initialState_def)

text \<open>
  C3. A click on a sortable column \<open>A\<close> takes the sort state from none to \<open>A\<close> ascending, from
  there to \<open>A\<close> descending, and from there back to none. A click on a sortable column
  other than the one of the state gives that column ascending, and a click on a column that
  is not sortable changes nothing. On the rows Bob, Amy, Cal with the sortable column
  \<^verbatim>\<open>name\<close>, under a collation that puts Amy before Bob before Cal, one click shows Amy,
  Bob, Cal, a second Cal, Bob, Amy, and a third the rows as they were given.
\<close>

theorem sort_cycle:
  assumes "sortable A = Some True"
  shows "sortState (handleSort A (S\<lparr>sortState := \<lparr>sortKey = None, sortOrder = None\<rparr>\<rparr>)) =
           \<lparr>sortKey = Some (key A), sortOrder = Some Asc\<rparr> \<and>
         sortState (handleSort A (S\<lparr>sortState := \<lparr>sortKey = Some (key A), sortOrder = Some Asc\<rparr>\<rparr>)) =
           \<lparr>sortKey = Some (key A), sortOrder = Some Desc\<rparr> \<and>
         sortState (handleSort A (S\<lparr>sortState := \<lparr>sortKey = Some (key A), sortOrder = Some Desc\<rparr>\<rparr>)) =
           \<lparr>sortKey = None, sortOrder = None\<rparr> \<and>
         (sortable B = Some True \<and> sortKey (sortState S) \<noteq> Some (key B) \<longrightarrow>
            sortState (handleSort B S) = \<lparr>sortKey = Some (key B), sortOrder = Some Asc\<rparr>) \<and>
         (sortable C \<noteq> Some True \<longrightarrow> handleSort C S = S) \<and>
         (localeCompare ''Amy'' ''Bob'' < 0 \<and> 0 < localeCompare ''Bob'' ''Amy'' \<and>
          localeCompare ''Bob'' ''Cal'' < 0 \<and> 0 < localeCompare ''Cal'' ''Bob'' \<and>
          localeCompare ''Amy'' ''Cal'' < 0 \<and> 0 < localeCompare ''Cal'' ''Amy'' \<longrightarrow>
            paginatedData localeCompare peopleProps
              (handleSort (plainColumn ''name'') initialState) = [amy, bob, cal] \<and>
            paginatedData localeCompare peopleProps
              (handleSort (plainColumn ''name'') (handleSort (plainColumn ''name'') initialState)) =
              [cal, bob, amy] \<and>
            paginatedData localeCompare peopleProps
              (handleSort (plainColumn ''name'')
                (handleSort (plainColumn ''name'') (handleSort (plainColumn ''name'') initialState))) =
              [bob, amy, cal])"
proof -
  have cycle1: "sortState (handleSort A (S\<lparr>sortState := \<lparr>sortKey = None, sortOrder = None\<rparr>\<rparr>)) =
           \<lparr>sortKey = Some (key A), sortOrder = Some Asc\<rparr>"
    using assms by (simp add: handleSort_def)
  have cycle2: "sortState (handleSort A (S\<lparr>sortState := \<lparr>sortKey = Some (key A), sortOrder = Some Asc\<rparr>\<rparr>)) =
           \<lparr>sortKey = Some (key A), sortOrder = Some Desc\<rparr>"
    using assms by (simp add: handleSort_def)
  have cycle3: "sortState (handleSort A (S\<lparr>sortState := \<lparr>sortKey = Some (key A), sortOrder = Some Desc\<rparr>\<rparr>)) =
           \<lparr>sortKey = None, sortOrder = None\<rparr>"
    using assms by (simp add: handleSort_def)
  have other: "sortState (handleSort B S) = \<lparr>sortKey = Some (key B), sortOrder = Some Asc\<rparr>"
    if "sortable B = Some True \<and> sortKey (sortState S) \<noteq> Some (key B)"
    using that by (simp add: handleSort_def)
  have fixed: "handleSort C S = S" if "sortable C \<noteq> Some True"
    using that by (simp add: handleSort_def)
  have scenario: "paginatedData localeCompare peopleProps
              (handleSort (plainColumn ''name'') initialState) = [amy, bob, cal] \<and>
            paginatedData localeCompare peopleProps
              (handleSort (plainColumn ''name'') (handleSort (plainColumn ''name'') initialState)) =
              [cal, bob, amy] \<and>
            paginatedData localeCompare peopleProps
              (handleSort (plainColumn ''name'')
                (handleSort (plainColumn ''name'') (handleSort (plainColumn ''name'') initialState))) =
              [bob, amy, cal]"
    if lc: "localeCompare ''Amy'' ''Bob'' < 0 \<and> 0 < localeCompare ''Bob'' ''Amy'' \<and>
          localeCompare ''Bob'' ''Cal'' < 0 \<and> 0 < localeCompare ''Cal'' ''Bob'' \<and>
          localeCompare ''Amy'' ''Cal'' < 0 \<and> 0 < localeCompare ''Cal'' ''Amy''"
  proof -
    let ?c = "plainColumn ''name''"
    have s1: "handleSort ?c initialState = sortedBy ''name'' Asc"
      by (simp add: handleSort_def plainColumn_def initialState_def sortedBy_def)
    have s2: "handleSort ?c (sortedBy ''name'' Asc) = sortedBy ''name'' Desc"
      by (simp add: handleSort_def plainColumn_def initialState_def sortedBy_def)
    have s3: "handleSort ?c (sortedBy ''name'' Desc) = initialState"
      by (simp add: handleSort_def plainColumn_def initialState_def sortedBy_def)
    have f: "filteredData peopleProps (sortedBy ''name'' ord) = [bob, amy, cal]" for ord
      by (simp add: filteredData_def peopleProps_def sortedBy_def initialState_def)
    have col: "find (\<lambda>col. key col = ''name'') (columns peopleProps) = Some ?c"
      by (simp add: peopleProps_def plainColumn_def)
    note act = sortedData_active [OF sortState_sortedBy _ col, where lc = localeCompare]
    have v: "getField bob (dataIndex ?c) = JStr ''Bob''" "getField amy (dataIndex ?c) = JStr ''Amy''"
      "getField cal (dataIndex ?c) = JStr ''Cal''"
      by (simp_all add: getField_def bob_def amy_def cal_def plainColumn_def)
    have cmp: "compareRows localeCompare ord ?c amy bob =
                 (if ord = Some Asc then localeCompare ''Amy'' ''Bob'' else - localeCompare ''Amy'' ''Bob'')"
      "compareRows localeCompare ord ?c cal bob =
                 (if ord = Some Asc then localeCompare ''Cal'' ''Bob'' else - localeCompare ''Cal'' ''Bob'')"
      "compareRows localeCompare ord ?c cal amy =
                 (if ord = Some Asc then localeCompare ''Cal'' ''Amy'' else - localeCompare ''Cal'' ''Amy'')"
      for ord
      by (simp_all add: compareRows_def v isNullish_def Let_def)
    have a: "sortedData localeCompare peopleProps (sortedBy ''name'' Asc) = [amy, bob, cal]"
      using lc by (simp add: act f arraySort_three insertPivot_two cmp)
    have d: "sortedData localeCompare peopleProps (sortedBy ''name'' Desc) = [cal, bob, amy]"
      using lc by (simp add: act f arraySort_three insertPivot_two cmp)
    have n: "sortedData localeCompare peopleProps initialState = [bob, amy, cal]"
      by (simp add: sortedData_def filteredData_def initialState_def peopleProps_def)
    have p: "paginatedData localeCompare peopleProps T = sortedData localeCompare peopleProps T" for T
      by (simp add: paginatedData_def peopleProps_def)
    show ?thesis by (simp add: s1 s2 s3 p a d n)
  qed
  from cycle1 cycle2 cycle3 other fixed scenario show ?thesis by blast
qed

theorem sort_cycle_witness:
  "sortable (plainColumn ''name'') = Some True \<and>
   sortState (handleSort (plainColumn ''name'') initialState) =
     \<lparr>sortKey = Some ''name'', sortOrder = Some Asc\<rparr> \<and>
   sortable (plainColumn ''id'') = Some True \<and>
   sortState (handleSort (plainColumn ''id'') (sortedBy ''name'' Desc)) =
     \<lparr>sortKey = Some ''id'', sortOrder = Some Asc\<rparr> \<and>
   sortable ((plainColumn ''id'')\<lparr>sortable := None\<rparr>) \<noteq> Some True \<and>
   handleSort ((plainColumn ''id'')\<lparr>sortable := None\<rparr>) (sortedBy ''name'' Desc) =
     sortedBy ''name'' Desc \<and>
   sampleCollation ''Amy'' ''Bob'' < 0 \<and> 0 < sampleCollation ''Bob'' ''Amy'' \<and>
   sampleCollation ''Bob'' ''Cal'' < 0 \<and> 0 < sampleCollation ''Cal'' ''Bob'' \<and>
   sampleCollation ''Amy'' ''Cal'' < 0 \<and> 0 < sampleCollation ''Cal'' ''Amy'' \<and>
   paginatedData sampleCollation peopleProps
     (handleSort (plainColumn ''name'') initialState) = [amy, bob, cal] \<and>
   paginatedData sampleCollation peopleProps
     (handleSort (plainColumn ''name'') (handleSort (plainColumn ''name'') initialState)) =
     [cal, bob, amy] \<and>
   paginatedData sampleCollation peopleProps
     (handleSort (plainColumn ''name'')
        (handleSort (plainColumn ''name'') (handleSort (plainColumn ''name'') initialState))) =
     [bob, amy, cal]"
proof -
  have a: "sortable (plainColumn ''name'') = Some True" by (simp add: plainColumn_def)
  have b: "sortable (plainColumn ''id'') = Some True" by (simp add: plainColumn_def)
  have c: "sortable ((plainColumn ''id'')\<lparr>sortable := None\<rparr>) \<noteq> Some True" by simp
  have k: "sortKey (sortState (sortedBy ''name'' Desc)) \<noteq> Some (key (plainColumn ''id''))"
    by (simp add: sortedBy_def plainColumn_def)
  have i: "initialState\<lparr>sortState := \<lparr>sortKey = None, sortOrder = None\<rparr>\<rparr> = initialState"
    by (simp add: initialState_def)
  have n: "key (plainColumn ''name'') = ''name''" "key (plainColumn ''id'') = ''id''"
    by (simp_all add: plainColumn_def)
  have lc: "sampleCollation ''Amy'' ''Bob'' < 0" "0 < sampleCollation ''Bob'' ''Amy''"
    "sampleCollation ''Bob'' ''Cal'' < 0" "0 < sampleCollation ''Cal'' ''Bob''"
    "sampleCollation ''Amy'' ''Cal'' < 0" "0 < sampleCollation ''Cal'' ''Amy''"
    by code_simp+
  from sort_cycle [OF a, where S = initialState and B = "plainColumn ''id''"
      and C = "(plainColumn ''id'')\<lparr>sortable := None\<rparr>" and localeCompare = sampleCollation]
    sort_cycle [OF a, where S = "sortedBy ''name'' Desc" and B = "plainColumn ''id''"
      and C = "(plainColumn ''id'')\<lparr>sortable := None\<rparr>" and localeCompare = sampleCollation]
    a b c k lc
  show ?thesis by (simp add: i n)
qed







text \<open>
  C6 (amended). A row toggle adds or removes the key of the row and passes to the callback
  the rows of the full data whose key, taken at the row's position in the data, is in the
  resulting selection, in the order of the data. Select-all passes the rows of the current
  page in the order shown, deselect-all passes the empty list. Nothing is passed when no
  callback is registered.
\<close>

theorem selection_emits:
  "selectedRows (fst (handleRowSelect P S r checked index)) =
     (if checked then insert (getRowKey P r index) (selectedRows S)
      else selectedRows S - {getRowKey P r index}) \<and>
   snd (handleRowSelect P S r checked index) =
     (if onRowSelect P
      then Some (map (\<lambda>i. data P ! i)
                  (filter (\<lambda>i. getRowKey P (data P ! i) i \<in>
                                 selectedRows (fst (handleRowSelect P S r checked index)))
                     [0..<length (data P)]))
      else None) \<and>
   snd (handleSelectAll lc P S True) =
     (if onRowSelect P then Some (paginatedData lc P S) else None) \<and>
   handleSelectAll lc P S False =
     (S\<lparr>selectedRows := {}\<rparr>, if onRowSelect P then Some [] else None)"
  by (simp add: handleRowSelect_def handleSelectAll_def notify_def Let_def filter_enumerate)

theorem selection_emits_witness:
  "snd (handleRowSelect peopleProps initialState amy True 1) = Some [amy] \<and>
   snd (handleRowSelect (peopleProps\<lparr>onRowSelect := False\<rparr>) initialState amy True 1) = None \<and>
   snd (handleSelectAll sampleCollation (numberedProps 10) tenDescending True) =
     Some [[(''id'', JNum 10)], [(''id'', JNum 9)], [(''id'', JNum 8)]] \<and>
   snd (handleSelectAll sampleCollation (numberedProps 10) tenDescending False) = Some []"
proof -
  have o: "onRowSelect peopleProps" "onRowSelect (numberedProps 10)"
    "\<not> onRowSelect (peopleProps\<lparr>onRowSelect := False\<rparr>)"
    by (simp_all add: peopleProps_def numberedProps_def)
  have "map (\<lambda>i. data peopleProps ! i)
          (filter (\<lambda>i. getRowKey peopleProps (data peopleProps ! i) i \<in>
                         selectedRows (fst (handleRowSelect peopleProps initialState amy True 1)))
             [0..<length (data peopleProps)]) = [amy]" by code_simp
  moreover have "paginatedData sampleCollation (numberedProps 10) tenDescending =
      [[(''id'', JNum 10)], [(''id'', JNum 9)], [(''id'', JNum 8)]]" by code_simp
  ultimately show ?thesis
    using selection_emits [of peopleProps initialState amy True 1 sampleCollation]
      selection_emits [of "peopleProps\<lparr>onRowSelect := False\<rparr>" initialState amy True 1
        sampleCollation]
      selection_emits [of "numberedProps 10" tenDescending amy True 1 sampleCollation] o
    by simp
qed

text \<open>
  C6 as stated fails for select-all under a sort: on ten rows sorted by id, largest first,
  three to a page, the callback receives the rows 10, 9, 8 as shown. The keys 8, 9, 10 are
  then selected, and the rows of the data with these keys are, in the order of the data,
  8, 9, 10: this is the list that a toggle of the selected row 10 passes on.
\<close>

theorem select_all_emits_page_counterexample:
  "snd (handleSelectAll sampleCollation (numberedProps 10) tenDescending True) =
     Some [[(''id'', JNum 10)], [(''id'', JNum 9)], [(''id'', JNum 8)]] \<and>
   selectedRows (fst (handleSelectAll sampleCollation (numberedProps 10) tenDescending True)) =
     {JNum 8, JNum 9, JNum 10} \<and>
   snd (handleRowSelect (numberedProps 10)
          (fst (handleSelectAll sampleCollation (numberedProps 10) tenDescending True))
          [(''id'', JNum 10)] True 0) =
     Some [[(''id'', JNum 8)], [(''id'', JNum 9)], [(''id'', JNum 10)]]"
  by code_simp

text \<open>
  C7 (how the component departs from it). Two rows whose value in the sorted column is
  \<^verbatim>\<open>null\<close> or absent do not compare as equal: the comparator answers -1 under the ascending
  order and 1 under the descending order, whichever row comes first, and the ascending sort
  of two such rows exchanges them.
\<close>

theorem blank_pair_reordered:
  assumes "isNullish (getField a (dataIndex column))"
    and "isNullish (getField b (dataIndex column))"
  shows "compareRows lc (Some Asc) column a b = - 1 \<and>
         compareRows lc (Some Asc) column b a = - 1 \<and>
         compareRows lc (Some Desc) column a b = 1 \<and>
         compareRows lc (Some Desc) column b a = 1 \<and>
         arraySort (compareRows lc (Some Asc) column) [a, b] = [b, a]"
  using assms by (simp add: compareRows_def arraySort_two)

theorem blank_pair_reordered_witness:
  "isNullish (getField nullFirst (dataIndex (plainColumn ''v''))) \<and>
   isNullish (getField absentSecond (dataIndex (plainColumn ''v''))) \<and>
   filteredData blankProps (sortedBy ''v'' Asc) = [nullFirst, absentSecond] \<and>
   sortedData sampleCollation blankProps (sortedBy ''v'' Asc) = [absentSecond, nullFirst]"
proof -
  have a: "isNullish (getField nullFirst (dataIndex (plainColumn ''v'')))" by code_simp
  have b: "isNullish (getField absentSecond (dataIndex (plainColumn ''v'')))" by code_simp
  have f: "filteredData blankProps (sortedBy ''v'' Asc) = [nullFirst, absentSecond]"
    by (simp add: filteredData_def blankProps_def sortedBy_def initialState_def)
  have col: "find (\<lambda>col. key col = ''v'') (columns blankProps) = Some (plainColumn ''v'')"
    by (simp add: blankProps_def plainColumn_def)
  have "sortedData sampleCollation blankProps (sortedBy ''v'' Asc) =
      arraySort (compareRows sampleCollation (Some Asc) (plainColumn ''v'')) [nullFirst, absentSecond]"
    using sortedData_active [OF sortState_sortedBy _ col, where lc = sampleCollation and ord = Asc] f
    by simp
  with blank_pair_reordered [OF a b, of sampleCollation] a b f show ?thesis by simp
qed

text \<open>
  C8. With a page size \<open>ps > 0\<close> and a current page of at least 1, the window shown is the
  slice of the sorted rows from index \<open>(currentPage - 1) * ps\<close>, at most \<open>ps\<close> rows long and
  clipped to the rows there are, so a page beyond the last one is empty. The windows of the
  pages 1 to the page count, one after the other, are the sorted rows. Without a page size
  the window is all the sorted rows.
\<close>

theorem pages_cover:
  assumes "pageSize P = Some ps" and "0 < ps" and "1 \<le> currentPage S"
  shows "paginatedData lc P S =
           take (nat ps) (drop (nat ((currentPage S - 1) * ps)) (sortedData lc P S)) \<and>
         (int (length (sortedData lc P S)) \<le> (currentPage S - 1) * ps \<longrightarrow>
            paginatedData lc P S = []) \<and>
         concat (map (\<lambda>page. paginatedData lc P (setCurrentPage page S))
                   [1..totalPages lc P S]) = sortedData lc P S \<and>
         paginatedData lc (P\<lparr>pageSize := None\<rparr>) S = sortedData lc (P\<lparr>pageSize := None\<rparr>) S"
proof -
  note win = paginatedData_window [OF assms, of lc]
  have out: "paginatedData lc P S = []"
    if "int (length (sortedData lc P S)) \<le> (currentPage S - 1) * ps"
  proof -
    from that have "length (sortedData lc P S) \<le> nat ((currentPage S - 1) * ps)" by linarith
    then show ?thesis by (simp add: win)
  qed
  have cover: "concat (map (\<lambda>page. paginatedData lc P (setCurrentPage page S))
                   [1..totalPages lc P S]) = sortedData lc P S"
  proof -
    let ?t = "totalPages lc P S"
    have nn: "0 \<le> ?t" by (rule totalPages_nonneg [OF assms(1,2)])
    then have t: "int (nat ?t) = ?t" by simp
    have "int (length (sortedData lc P S)) \<le> ?t * ps"
      by (rule totalPages_upper [OF assms(1,2)])
    also have "\<dots> = int (nat ?t * nat ps)" using nn assms(2) by simp
    finally have le: "length (sortedData lc P S) \<le> nat ?t * nat ps" by (simp only: of_nat_le_iff)
    have "concat (map (\<lambda>page. paginatedData lc P (setCurrentPage page S)) [1..int (nat ?t)]) =
          take (nat ?t * nat ps) (sortedData lc P S)"
      by (rule pages_concat [OF assms(1,2)])
    with le show ?thesis by (simp only: t take_all)
  qed
  have none: "paginatedData lc (P\<lparr>pageSize := None\<rparr>) S = sortedData lc (P\<lparr>pageSize := None\<rparr>) S"
    by (simp add: paginatedData_def)
  from win out cover none show ?thesis by blast
qed

theorem pages_cover_witness:
  "pageSize (numberedProps 7) = Some 3 \<and> (0::int) < 3 \<and>
   1 \<le> currentPage (setCurrentPage 3 initialState) \<and>
   paginatedData sampleCollation (numberedProps 7) (setCurrentPage 3 initialState) =
     [[(''id'', JNum 7)]] \<and>
   concat (map (\<lambda>page. paginatedData sampleCollation (numberedProps 7)
                          (setCurrentPage page (setCurrentPage 3 initialState)))
             [1..totalPages sampleCollation (numberedProps 7) (setCurrentPage 3 initialState)]) =
     sortedData sampleCollation (numberedProps 7) (setCurrentPage 3 initialState) \<and>
   1 \<le> currentPage (setCurrentPage 5 initialState) \<and>
   int (length (sortedData sampleCollation (numberedProps 7) (setCurrentPage 5 initialState))) \<le>
     (currentPage (setCurrentPage 5 initialState) - 1) * 3 \<and>
   paginatedData sampleCollation (numberedProps 7) (setCurrentPage 5 initialState) = []"
proof -
  have p: "pageSize (numberedProps 7) = Some 3" by (simp add: numberedProps_def)
  have c: "1 \<le> currentPage (setCurrentPage 3 initialState)"
    "1 \<le> currentPage (setCurrentPage 5 initialState)"
    by (simp_all add: setCurrentPage_def)
  have s: "take (nat 3) (drop (nat ((currentPage (setCurrentPage 3 initialState) - 1) * 3))
      (sortedData sampleCollation (numberedProps 7) (setCurrentPage 3 initialState))) =
      [[(''id'', JNum 7)]]" by code_simp
  have l: "length (sortedData sampleCollation (numberedProps 7) (setCurrentPage 5 initialState)) = 7"
    by code_simp
  have f: "currentPage (setCurrentPage 5 initialState) = 5" by (simp add: setCurrentPage_def)
  from pages_cover [OF p _ c(1), of sampleCollation] pages_cover [OF p _ c(2), of sampleCollation]
    s p c l f
  show ?thesis by simp
qed

text \<open>
  C9. A new search query, a click on a column header and a change of page leave the set of
  selected keys as it is. A row that is selected stays selected while another query is in
  force, and after the query is put back the window is what it was and shows the row
  selected.
\<close>

theorem selection_persists:
  "selectedRows (setSearchQuery q S) = selectedRows S \<and>
   selectedRows (handleSort column S) = selectedRows S \<and>
   selectedRows (setCurrentPage page S) = selectedRows S \<and>
   selectedRows (previousPage S) = selectedRows S \<and>
   selectedRows (nextPage lc P S) = selectedRows S \<and>
   isSelected P (setSearchQuery q (fst (handleRowSelect P S r True index))) r index \<and>
   isSelected P
     (setSearchQuery (searchQuery S) (setSearchQuery q (fst (handleRowSelect P S r True index))))
     r index \<and>
   paginatedData lc P
     (setSearchQuery (searchQuery S) (setSearchQuery q (fst (handleRowSelect P S r True index)))) =
     paginatedData lc P S"
proof -
  have "paginatedData lc P
     (setSearchQuery (searchQuery S) (setSearchQuery q (fst (handleRowSelect P S r True index)))) =
     paginatedData lc P S"
    by (rule paginatedData_cong) (simp_all add: setSearchQuery_def handleRowSelect_def Let_def)
  then show ?thesis
    by (simp add: setSearchQuery_def handleSort_def setCurrentPage_def previousPage_def
        nextPage_def isSelected_def handleRowSelect_def Let_def)
qed

theorem selection_persists_witness:
  "amy \<in> set (paginatedData sampleCollation peopleProps initialState) \<and>
   amy \<notin> set (paginatedData sampleCollation peopleProps
                 (setSearchQuery ''bob'' (fst (handleRowSelect peopleProps initialState amy True 1)))) \<and>
   paginatedData sampleCollation peopleProps
     (setSearchQuery (searchQuery initialState)
        (setSearchQuery ''bob'' (fst (handleRowSelect peopleProps initialState amy True 1)))) =
     [bob, amy, cal] \<and>
   isSelected peopleProps
     (setSearchQuery (searchQuery initialState)
        (setSearchQuery ''bob'' (fst (handleRowSelect peopleProps initialState amy True 1))))
     amy 1"
proof -
  have a: "paginatedData sampleCollation peopleProps initialState = [bob, amy, cal]" by code_simp
  have b: "paginatedData sampleCollation peopleProps
                 (setSearchQuery ''bob'' (fst (handleRowSelect peopleProps initialState amy True 1))) = [bob]"
    by code_simp
  have ne: "amy \<noteq> bob" by code_simp
  from selection_persists [of "''bob''" initialState _ _ sampleCollation peopleProps amy 1] a b ne
  show ?thesis by simp
qed

text \<open>
  C10. A cell that holds \<^verbatim>\<open>undefined\<close> or \<^verbatim>\<open>null\<close> is searched as the text \<^verbatim>\<open>undefined\<close> or
  \<^verbatim>\<open>null\<close>: a row of the data with such a cell in one of the columns is in the result of the
  filter whenever the lowercased query occurs in that text, for example for the query
  \<^verbatim>\<open>undef\<close>; the cell itself, without a custom renderer, shows the empty string. Under a
  query that is not empty, a row of the data is in the result exactly when the lowercased
  query occurs in the text of one of its cells; so a row whose cells are all \<^verbatim>\<open>undefined\<close>
  is in the result exactly when the query occurs in \<^verbatim>\<open>undefined\<close>, and one whose cells are
  all \<^verbatim>\<open>null\<close> exactly when it occurs in \<^verbatim>\<open>null\<close>.
\<close>

theorem search_matches_blank_cells:
  assumes "record \<in> set (data P)" and "column \<in> set (columns P)"
  shows "(getField record (dataIndex column) = JUndefined \<and>
          ''undefined'' = pre @ toLowerCase (searchQuery S) @ post \<longrightarrow>
            record \<in> set (filteredData P S)) \<and>
         (getField record (dataIndex column) = JNull \<and>
          ''null'' = pre @ toLowerCase (searchQuery S) @ post \<longrightarrow>
            record \<in> set (filteredData P S)) \<and>
         (getField record (dataIndex column) = JUndefined \<and> searchQuery S = ''undef'' \<longrightarrow>
            record \<in> set (filteredData P S)) \<and>
         (isNullish (getField record (dataIndex column)) \<and> render column = None \<longrightarrow>
            cellText column record index = []) \<and>
         (searchQuery S \<noteq> [] \<longrightarrow>
            (record \<in> set (filteredData P S) \<longleftrightarrow>
               (\<exists>c \<in> set (columns P). \<exists>u w.
                  toLowerCase (jsString (getField record (dataIndex c))) =
                    u @ toLowerCase (searchQuery S) @ w))) \<and>
         (searchQuery S \<noteq> [] \<and>
          (\<forall>c \<in> set (columns P). getField record (dataIndex c) = JUndefined) \<longrightarrow>
            (record \<in> set (filteredData P S) \<longleftrightarrow>
               (\<exists>u w. ''undefined'' = u @ toLowerCase (searchQuery S) @ w))) \<and>
         (searchQuery S \<noteq> [] \<and>
          (\<forall>c \<in> set (columns P). getField record (dataIndex c) = JNull) \<longrightarrow>
            (record \<in> set (filteredData P S) \<longleftrightarrow>
               (\<exists>u w. ''null'' = u @ toLowerCase (searchQuery S) @ w)))"
proof (intro conjI impI)
  assume "getField record (dataIndex column) = JUndefined \<and>
          ''undefined'' = pre @ toLowerCase (searchQuery S) @ post"
  then have v: "jsString (getField record (dataIndex column)) = ''undefined''"
    and e: "''undefined'' = pre @ toLowerCase (searchQuery S) @ post"
    by simp_all
  have "toLowerCase (jsString (getField record (dataIndex column))) = ''undefined''"
    unfolding v by (rule toLowerCase_undefined)
  from this e have "toLowerCase (jsString (getField record (dataIndex column))) =
      pre @ toLowerCase (searchQuery S) @ post" by (rule trans)
  then show "record \<in> set (filteredData P S)"
    by (rule filteredData_member [OF assms])
next
  assume "getField record (dataIndex column) = JNull \<and>
          ''null'' = pre @ toLowerCase (searchQuery S) @ post"
  then have v: "jsString (getField record (dataIndex column)) = ''null''"
    and e: "''null'' = pre @ toLowerCase (searchQuery S) @ post"
    by simp_all
  have "toLowerCase (jsString (getField record (dataIndex column))) = ''null''"
    unfolding v by (rule toLowerCase_null)
  from this e have "toLowerCase (jsString (getField record (dataIndex column))) =
      pre @ toLowerCase (searchQuery S) @ post" by (rule trans)
  then show "record \<in> set (filteredData P S)"
    by (rule filteredData_member [OF assms])
next
  assume a: "getField record (dataIndex column) = JUndefined \<and> searchQuery S = ''undef''"
  have "toLowerCase ''undef'' = ''undef''" by code_simp
  then have "toLowerCase (jsString (getField record (dataIndex column))) =
      [] @ toLowerCase (searchQuery S) @ ''ined''"
    using a by (simp add: toLowerCase_undefined)
  then show "record \<in> set (filteredData P S)"
    by (rule filteredData_member [OF assms])
next
  assume "isNullish (getField record (dataIndex column)) \<and> render column = None"
  then show "cellText column record index = []"
    by (simp add: cellText_def nullish_def)
next
  assume "searchQuery S \<noteq> []"
  then show "record \<in> set (filteredData P S) \<longleftrightarrow>
               (\<exists>c \<in> set (columns P). \<exists>u w.
                  toLowerCase (jsString (getField record (dataIndex c))) =
                    u @ toLowerCase (searchQuery S) @ w)"
    by (rule filteredData_iff [OF assms(1)])
next
  assume a: "searchQuery S \<noteq> [] \<and>
          (\<forall>c \<in> set (columns P). getField record (dataIndex c) = JUndefined)"
  then have "toLowerCase (jsString (getField record (dataIndex c))) = ''undefined''"
    if "c \<in> set (columns P)" for c
    using that by (simp add: toLowerCase_undefined)
  with assms(2) have "(\<exists>c \<in> set (columns P). \<exists>u w.
                  toLowerCase (jsString (getField record (dataIndex c))) =
                    u @ toLowerCase (searchQuery S) @ w) \<longleftrightarrow>
      (\<exists>u w. ''undefined'' = u @ toLowerCase (searchQuery S) @ w)"
    by auto
  moreover from a have "record \<in> set (filteredData P S) \<longleftrightarrow>
      (\<exists>c \<in> set (columns P). \<exists>u w.
         toLowerCase (jsString (getField record (dataIndex c))) =
           u @ toLowerCase (searchQuery S) @ w)"
    by (intro filteredData_iff [OF assms(1)]) simp
  ultimately show "record \<in> set (filteredData P S) \<longleftrightarrow>
               (\<exists>u w. ''undefined'' = u @ toLowerCase (searchQuery S) @ w)"
    by (rule trans [rotated])
next
  assume a: "searchQuery S \<noteq> [] \<and>
          (\<forall>c \<in> set (columns P). getField record (dataIndex c) = JNull)"
  then have "toLowerCase (jsString (getField record (dataIndex c))) = ''null''"
    if "c \<in> set (columns P)" for c
    using that by (simp add: toLowerCase_null)
  with assms(2) have "(\<exists>c \<in> set (columns P). \<exists>u w.
                  toLowerCase (jsString (getField record (dataIndex c))) =
                    u @ toLowerCase (searchQuery S) @ w) \<longleftrightarrow>
      (\<exists>u w. ''null'' = u @ toLowerCase (searchQuery S) @ w)"
    by auto
  moreover from a have "record \<in> set (filteredData P S) \<longleftrightarrow>
      (\<exists>c \<in> set (columns P). \<exists>u w.
         toLowerCase (jsString (getField record (dataIndex c))) =
           u @ toLowerCase (searchQuery S) @ w)"
    by (intro filteredData_iff [OF assms(1)]) simp
  ultimately show "record \<in> set (filteredData P S) \<longleftrightarrow>
               (\<exists>u w. ''null'' = u @ toLowerCase (searchQuery S) @ w)"
    by (rule trans [rotated])
qed

theorem search_matches_blank_cells_witness:
  "absentSecond \<in> set (data blankProps) \<and> nullFirst \<in> set (data blankProps) \<and>
   plainColumn ''v'' \<in> set (columns blankProps) \<and>
   getField absentSecond (dataIndex (plainColumn ''v'')) = JUndefined \<and>
   getField nullFirst (dataIndex (plainColumn ''v'')) = JNull \<and>
   absentSecond \<in> set (filteredData blankProps (setSearchQuery ''undef'' initialState)) \<and>
   absentSecond \<in> set (filteredData blankProps (setSearchQuery ''Fine'' initialState)) \<and>
   nullFirst \<in> set (filteredData blankProps (setSearchQuery ''NUL'' initialState)) \<and>
   render (plainColumn ''v'') = None \<and>
   cellText (plainColumn ''v'') absentSecond 1 = [] \<and>
   cellText (plainColumn ''v'') nullFirst 0 = [] \<and>
   absentSecond \<notin> set (filteredData blankProps (setSearchQuery ''null'' initialState)) \<and>
   nullFirst \<notin> set (filteredData blankProps (setSearchQuery ''undef'' initialState)) \<and>
   absentSecond \<notin> set (filteredData blankProps (setSearchQuery ''xyz'' initialState)) \<and>
   nullFirst \<notin> set (filteredData blankProps (setSearchQuery ''xyz'' initialState))"
proof -
  have r: "absentSecond \<in> set (data blankProps)" "nullFirst \<in> set (data blankProps)"
    by (simp_all add: blankProps_def)
  have c: "plainColumn ''v'' \<in> set (columns blankProps)" by (simp add: blankProps_def)
  have u: "getField absentSecond (dataIndex (plainColumn ''v'')) = JUndefined"
    by (simp add: getField_def absentSecond_def plainColumn_def)
  have v: "getField nullFirst (dataIndex (plainColumn ''v'')) = JNull"
    by (simp add: getField_def nullFirst_def plainColumn_def)
  have q: "searchQuery (setSearchQuery ''undef'' initialState) = ''undef''"
    by (simp add: setSearchQuery_def)
  have fine: "''undefined'' =
      ''unde'' @ toLowerCase (searchQuery (setSearchQuery ''Fine'' initialState)) @ ''d''"
    by code_simp
  have nul: "''null'' = [] @ toLowerCase (searchQuery (setSearchQuery ''NUL'' initialState)) @ ''l''"
    by code_simp
  have n: "render (plainColumn ''v'') = None" by (simp add: plainColumn_def)
  have member: "absentSecond \<in> set (filteredData blankProps (setSearchQuery ''undef'' initialState)) \<and>
   absentSecond \<in> set (filteredData blankProps (setSearchQuery ''Fine'' initialState)) \<and>
   nullFirst \<in> set (filteredData blankProps (setSearchQuery ''NUL'' initialState)) \<and>
   cellText (plainColumn ''v'') absentSecond 1 = [] \<and>
   cellText (plainColumn ''v'') nullFirst 0 = []"
    using search_matches_blank_cells [OF r(1) c, where S = "setSearchQuery ''undef'' initialState"
      and index = 1]
    search_matches_blank_cells [OF r(1) c, where S = "setSearchQuery ''Fine'' initialState"
      and pre = "''unde''" and post = "''d''"]
    search_matches_blank_cells [OF r(2) c, where S = "setSearchQuery ''NUL'' initialState"
      and pre = "[]" and post = "''l''" and index = 0]
    u v q fine nul n
    by (simp add: isNullish_def)
  have allu: "\<forall>c \<in> set (columns blankProps). getField absentSecond (dataIndex c) = JUndefined"
    using u by (simp add: blankProps_def)
  have alln: "\<forall>c \<in> set (columns blankProps). getField nullFirst (dataIndex c) = JNull"
    using v by (simp add: blankProps_def)
  have ne: "searchQuery (setSearchQuery q initialState) \<noteq> []" if "q \<noteq> []" for q
    using that by (simp add: setSearchQuery_def)
  have no1: "\<not> (\<exists>u w. ''undefined'' =
      u @ toLowerCase (searchQuery (setSearchQuery ''null'' initialState)) @ w)"
    unfolding includes_str_iff [symmetric] by code_simp
  have no2: "\<not> (\<exists>u w. ''null'' =
      u @ toLowerCase (searchQuery (setSearchQuery ''undef'' initialState)) @ w)"
    unfolding includes_str_iff [symmetric] by code_simp
  have no3: "\<not> (\<exists>u w. ''undefined'' =
      u @ toLowerCase (searchQuery (setSearchQuery ''xyz'' initialState)) @ w)"
    unfolding includes_str_iff [symmetric] by code_simp
  have no4: "\<not> (\<exists>u w. ''null'' =
      u @ toLowerCase (searchQuery (setSearchQuery ''xyz'' initialState)) @ w)"
    unfolding includes_str_iff [symmetric] by code_simp
  have out1: "absentSecond \<notin> set (filteredData blankProps (setSearchQuery ''null'' initialState))"
  proof -
    from search_matches_blank_cells [OF r(1) c, where S = "setSearchQuery ''null'' initialState"]
    have "searchQuery (setSearchQuery ''null'' initialState) \<noteq> [] \<and>
        (\<forall>c \<in> set (columns blankProps). getField absentSecond (dataIndex c) = JUndefined) \<longrightarrow>
        (absentSecond \<in> set (filteredData blankProps (setSearchQuery ''null'' initialState)) \<longleftrightarrow>
           (\<exists>u w. ''undefined'' =
              u @ toLowerCase (searchQuery (setSearchQuery ''null'' initialState)) @ w))"
      by blast
    with allu no1 ne [of "''null''"] show ?thesis by blast
  qed
  have out2: "nullFirst \<notin> set (filteredData blankProps (setSearchQuery ''undef'' initialState))"
  proof -
    from search_matches_blank_cells [OF r(2) c, where S = "setSearchQuery ''undef'' initialState"]
    have "searchQuery (setSearchQuery ''undef'' initialState) \<noteq> [] \<and>
        (\<forall>c \<in> set (columns blankProps). getField nullFirst (dataIndex c) = JNull) \<longrightarrow>
        (nullFirst \<in> set (filteredData blankProps (setSearchQuery ''undef'' initialState)) \<longleftrightarrow>
           (\<exists>u w. ''null'' =
              u @ toLowerCase (searchQuery (setSearchQuery ''undef'' initialState)) @ w))"
      by blast
    with alln no2 ne [of "''undef''"] show ?thesis by blast
  qed
  have out3: "absentSecond \<notin> set (filteredData blankProps (setSearchQuery ''xyz'' initialState))"
  proof -
    from search_matches_blank_cells [OF r(1) c, where S = "setSearchQuery ''xyz'' initialState"]
    have "searchQuery (setSearchQuery ''xyz'' initialState) \<noteq> [] \<and>
        (\<forall>c \<in> set (columns blankProps). getField absentSecond (dataIndex c) = JUndefined) \<longrightarrow>
        (absentSecond \<in> set (filteredData blankProps (setSearchQuery ''xyz'' initialState)) \<longleftrightarrow>
           (\<exists>u w. ''undefined'' =
              u @ toLowerCase (searchQuery (setSearchQuery ''xyz'' initialState)) @ w))"
      by blast
    with allu no3 ne [of "''xyz''"] show ?thesis by blast
  qed
  have out4: "nullFirst \<notin> set (filteredData blankProps (setSearchQuery ''xyz'' initialState))"
  proof -
    from search_matches_blank_cells [OF r(2) c, where S = "setSearchQuery ''xyz'' initialState"]
    have "searchQuery (setSearchQuery ''xyz'' initialState) \<noteq> [] \<and>
        (\<forall>c \<in> set (columns blankProps). getField nullFirst (dataIndex c) = JNull) \<longrightarrow>
        (nullFirst \<in> set (filteredData blankProps (setSearchQuery ''xyz'' initialState)) \<longleftrightarrow>
           (\<exists>u w. ''null'' =
              u @ toLowerCase (searchQuery (setSearchQuery ''xyz'' initialState)) @ w))"
      by blast
    with alln no4 ne [of "''xyz''"] show ?thesis by blast
  qed
  from r c u v n member out1 out2 out3 out4 show ?thesis by simp
qed

end
